theory Spec2Isabelle
  imports Main
begin

section \<open>The server entry point \<open>cmd/server/main.go\<close>\<close>

text \<open>
  The file has five functions: \<open>main\<close>, \<open>start\<close>, \<open>getIntOrDefault\<close>,
  \<open>createLogger\<close> and \<open>getStringOrDefault\<close>. The process environment read by
  \<open>os.LookupEnv\<close> is a map from names to values; a name outside its domain is an
  unset variable (\<open>ok = false\<close>). Go strings are byte sequences, here \<open>string\<close>.
  An \<open>error\<close> value is identified with its message; \<open>nil\<close> is \<open>None\<close>.
\<close>

type_synonym error = string
type_synonym environ = "string \<rightharpoonup> string"

subsection \<open>Configuration\<close>

text \<open>
  \<open>strconv.Atoi\<close> belongs to the Go standard library. Its documented behaviour: the
  input is an optional sign \<open>+\<close> or \<open>-\<close> followed by one or more decimal digits and
  nothing else (\<open>ErrSyntax\<close> otherwise), and the value has to fit the type \<open>int\<close>
  (\<open>ErrRange\<close> otherwise), which has \<open>IntSize\<close> bits, 64 on the usual platforms.
\<close>

datatype NumError = ErrSyntax | ErrRange

definition IntSize :: nat where
  "IntSize = 64"

definition isDigit :: "char \<Rightarrow> bool" where
  "isDigit c = (48 \<le> (of_char c :: int) \<and> (of_char c :: int) \<le> 57)"

fun digitsVal :: "int \<Rightarrow> string \<Rightarrow> int" where
  "digitsVal n [] = n"
| "digitsVal n (c # cs) = digitsVal (n * 10 + (of_char c - 48)) cs"

definition Atoi :: "string \<Rightarrow> NumError + int" where
  "Atoi s =
     (let neg = (case s of [] \<Rightarrow> False | c # _ \<Rightarrow> c = CHR ''-'');
          ds = (case s of [] \<Rightarrow> []
                | c # r \<Rightarrow> if c = CHR ''-'' \<or> c = CHR ''+'' then r else s)
      in if ds = [] then Inl ErrSyntax
         else if list_all isDigit ds
         then (let n = digitsVal 0 ds; v = (if neg then - n else n)
               in if v < - (2 ^ (IntSize - 1)) \<or> 2 ^ (IntSize - 1) - 1 < v
                  then Inl ErrRange else Inr v)
         else Inl ErrSyntax)"

definition getStringOrDefault :: "environ \<Rightarrow> string \<Rightarrow> string \<Rightarrow> string" where
  "getStringOrDefault env name defaultV =
     (case env name of
        None \<Rightarrow> defaultV
      | Some v \<Rightarrow> v)"

definition getIntOrDefault :: "environ \<Rightarrow> string \<Rightarrow> int \<Rightarrow> int" where
  "getIntOrDefault env name defaultV =
     (case env name of
        None \<Rightarrow> defaultV
      | Some v \<Rightarrow>
          (case Atoi v of
             Inl err \<Rightarrow> defaultV
           | Inr vAsInt \<Rightarrow> vAsInt))"

subsection \<open>Logger construction\<close>

text \<open>
  The zap logging library is not part of the repository; the model follows its
  documentation. A logger has a profile and the fields added to it. \<open>NewProduction\<close> and
  \<open>NewDevelopment\<close> build a configuration; when the build fails they return a nil logger
  together with the error, otherwise a logger and \<open>nil\<close>. Whether the builds fail depends
  on the machine and is the parameter \<open>zap\<close>. \<open>NewNop\<close> returns a logger that never
  writes anything. A \<open>*zap.Logger\<close> is a \<open>Logger option\<close>, \<open>None\<close> the nil pointer.

  \<open>With\<close> returns a copy of the logger it is called on with one more field, and
  \<open>Info\<close> writes one entry (the message, the logger's fields and the fields of the call)
  under the production and the development profile, both of which let the level
  \<open>Info\<close> through. Both are given here for a logger that is not nil; \<open>With\<close> on a nil
  logger dereferences it, and that is a panic in \<open>start\<close>.
\<close>

datatype profile = Production | Development | Nop

record Logger =
  profile :: profile
  lfields :: "(string \<times> string) list"

record zap =
  ProductionBuild :: "error option"
  DevelopmentBuild :: "error option"

type_synonym entry = "string \<times> (string \<times> string) list"

definition NewProduction :: "zap \<Rightarrow> Logger option \<times> error option" where
  "NewProduction Z =
     (case ProductionBuild Z of
        None \<Rightarrow> (Some \<lparr>profile = Production, lfields = []\<rparr>, None)
      | Some err \<Rightarrow> (None, Some err))"

definition NewDevelopment :: "zap \<Rightarrow> Logger option \<times> error option" where
  "NewDevelopment Z =
     (case DevelopmentBuild Z of
        None \<Rightarrow> (Some \<lparr>profile = Development, lfields = []\<rparr>, None)
      | Some err \<Rightarrow> (None, Some err))"

definition NewNop :: "zap \<Rightarrow> Logger option" where
  "NewNop Z = Some \<lparr>profile = Nop, lfields = []\<rparr>"

definition With :: "Logger \<Rightarrow> string \<Rightarrow> string \<Rightarrow> Logger" where
  "With lg key val = lg\<lparr>lfields := lfields lg @ [(key, val)]\<rparr>"

definition Info :: "Logger \<Rightarrow> string \<Rightarrow> error \<Rightarrow> entry list" where
  "Info lg msg err =
     (if profile lg = Nop then [] else [(msg, lfields lg @ [(''error'', err)])])"

definition createLogger :: "zap \<Rightarrow> string \<Rightarrow> Logger option \<times> error option" where
  "createLogger Z env =
     (if env = ''production'' then NewProduction Z
      else if env = ''development'' then NewDevelopment Z
      else (NewNop Z, None))"

subsection \<open>The server package\<close>

text \<open>
  The package \<open>canvas/server\<close> is imported by \<open>main.go\<close> and is not among the sources.
  \<open>start\<close> uses its \<open>Options\<close> struct, its constructor \<open>New\<close> and the method
  \<open>Stop\<close>, whose result is an error or \<open>nil\<close>. Constructor and method are parameters of
  the model; \<open>'srv\<close> is the type of server handles.
\<close>

record Options =
  Host :: string
  Log :: Logger
  Port :: int

record 'srv server_pkg =
  New :: "Options \<Rightarrow> 'srv"
  Stop :: "'srv \<Rightarrow> error option"

subsection \<open>The process: main flow, coordination task and signals\<close>

text \<open>
  From line 52 on, three parties act: the main flow, the function handed to \<open>eg.Go\<close> (the
  coordination task) and the operating system delivering signals. Each party moves in
  steps; a run is the list of parties in the order in which they move. A party that
  cannot move in the current state (a blocked call, a finished flow) leaves the state
  as it is.

  Program points of the main flow: \<open>M_Go\<close> before \<open>eg.Go\<close> (line 55), \<open>M_Wait\<close> at
  \<open>eg.Wait\<close> (line 63), then, with the value \<open>start\<close> is returning, the deferred
  \<open>stop()\<close> (line 53), the deferred \<open>log.Sync()\<close> (line 38) and \<open>os.Exit\<close> (line 23);
  \<open>M_Exited\<close> is the terminated process. Program points of the task: \<open>T_Idle\<close> before
  it is spawned, \<open>T_Done\<close> at \<open>ctx.Done()\<close> (line 56), \<open>T_Stop\<close> at \<open>s.Stop()\<close>
  (line 57), \<open>T_Log\<close> at \<open>log.Info\<close> (line 58), \<open>T_Return\<close> at its \<open>return\<close> (lines
  59 and 61), \<open>T_Finished\<close> afterwards.
\<close>

datatype signal = SIGTERM | SIGINT

datatype event =
    Println string
  | Delivered signal
  | StopCalled
  | LogInfo string error
  | TaskReturned "error option"
  | WaitReturned "error option"
  | NotifyStopped
  | LogSync
  | Exit int

datatype main_pc = M_Go | M_Wait | M_DeferStop int | M_DeferSync int | M_Exit int | M_Exited int

datatype task_pc = T_Idle | T_Done | T_Stop | T_Log error | T_Return "error option" | T_Finished

text \<open>
  The state: the two program points; the errgroup (\<open>wg\<close> counts its running functions,
  \<open>eg_err\<close> is the first error one of them returned); the context of
  \<open>signal.NotifyContext\<close> (\<open>ctx_done\<close>: its \<open>Done\<close> channel is closed; \<open>registered\<close>:
  SIGTERM and SIGINT are routed to it); the local variables \<open>log\<close> and \<open>s\<close>; the events
  so far, oldest first (\<open>LogInfo\<close> is the call of \<open>log.Info\<close>); and the entries the
  logger has written.
\<close>

record 'srv state =
  mpc :: main_pc
  tpc :: task_pc
  wg :: nat
  eg_err :: "error option"
  ctx_done :: bool
  registered :: bool
  logger :: Logger
  server :: 'srv
  trace :: "event list"
  written :: "entry list"

definition exit_status :: "'srv state \<Rightarrow> int option" where
  "exit_status st = (case mpc st of M_Exited rc \<Rightarrow> Some rc | _ \<Rightarrow> None)"

definition emit :: "event \<Rightarrow> 'srv state \<Rightarrow> 'srv state" where
  "emit e st = st\<lparr>trace := trace st @ [e]\<rparr>"

text \<open>
  The main flow. \<open>eg.Go\<close> adds one to the group's counter and starts the task.
  \<open>eg.Wait\<close> blocks while the counter is not zero and then returns the group's error;
  lines 63 to 67 turn it into the return value. The deferred calls run last registered
  first; \<open>stop\<close> ends the routing of the signals and cancels the context.
\<close>

definition main_step :: "'srv state \<Rightarrow> 'srv state option" where
  "main_step st =
     (case mpc st of
        M_Go \<Rightarrow> Some (st\<lparr>mpc := M_Wait, tpc := T_Done, wg := wg st + 1\<rparr>)
      | M_Wait \<Rightarrow>
          if wg st = 0
          then Some (emit (WaitReturned (eg_err st))
                 (st\<lparr>mpc := M_DeferStop (case eg_err st of None \<Rightarrow> 0 | Some err \<Rightarrow> 1)\<rparr>))
          else None
      | M_DeferStop rc \<Rightarrow>
          Some (emit NotifyStopped
            (st\<lparr>mpc := M_DeferSync rc, registered := False, ctx_done := True\<rparr>))
      | M_DeferSync rc \<Rightarrow> Some (emit LogSync (st\<lparr>mpc := M_Exit rc\<rparr>))
      | M_Exit rc \<Rightarrow> Some (emit (Exit rc) (st\<lparr>mpc := M_Exited rc\<rparr>))
      | M_Exited rc \<Rightarrow> None)"

text \<open>
  The coordination task, lines 55 to 62. \<open>ctx.Done()\<close> returns the context's channel;
  line 56 is the call alone, with no receive from the channel, so the step does not look
  at \<open>ctx_done\<close> and the task goes on to \<open>s.Stop()\<close>. Line 58 calls \<open>log.Info\<close> on the
  logger of line 33, which writes what \<open>Info\<close> says. When the function returns, the
  errgroup keeps its error if it is the first one and takes one off the counter. A
  terminated process runs no task.
\<close>

definition task_step :: "'srv server_pkg \<Rightarrow> 'srv state \<Rightarrow> 'srv state option" where
  "task_step P st =
     (if exit_status st \<noteq> None then None
      else case tpc st of
        T_Idle \<Rightarrow> None
      | T_Done \<Rightarrow> Some (st\<lparr>tpc := T_Stop\<rparr>)
      | T_Stop \<Rightarrow>
          (case Stop P (server st) of
             Some err \<Rightarrow> Some (emit StopCalled (st\<lparr>tpc := T_Log err\<rparr>))
           | None \<Rightarrow> Some (emit StopCalled (st\<lparr>tpc := T_Return None\<rparr>)))
      | T_Log err \<Rightarrow>
          Some (emit (LogInfo ''Error stopping server'' err)
            (st\<lparr>tpc := T_Return (Some err),
                written := written st @ Info (logger st) ''Error stopping server'' err\<rparr>))
      | T_Return r \<Rightarrow>
          Some (emit (TaskReturned r)
            (st\<lparr>tpc := T_Finished, wg := wg st - 1,
                eg_err := (case eg_err st of None \<Rightarrow> r | Some e \<Rightarrow> Some e)\<rparr>))
      | T_Finished \<Rightarrow> None)"

text \<open>
  A signal. While SIGTERM and SIGINT are routed to the context, a delivery cancels it.
  Deliveries outside that window (before line 52, after the deferred \<open>stop\<close>) are not
  part of the model.
\<close>

definition deliver :: "signal \<Rightarrow> 'srv state \<Rightarrow> 'srv state option" where
  "deliver sg st =
     (if registered st \<and> exit_status st = None
      then Some (emit (Delivered sg) (st\<lparr>ctx_done := True\<rparr>))
      else None)"

datatype action = RunMain | RunTask | Deliver signal

definition step :: "'srv server_pkg \<Rightarrow> action \<Rightarrow> 'srv state \<Rightarrow> 'srv state option" where
  "step P a st =
     (case a of
        RunMain \<Rightarrow> main_step st
      | RunTask \<Rightarrow> task_step P st
      | Deliver sg \<Rightarrow> deliver sg st)"

definition advance :: "'srv server_pkg \<Rightarrow> action \<Rightarrow> 'srv state \<Rightarrow> 'srv state" where
  "advance P a st = (case step P a st of None \<Rightarrow> st | Some st' \<Rightarrow> st')"

fun exec :: "'srv server_pkg \<Rightarrow> action list \<Rightarrow> 'srv state \<Rightarrow> 'srv state" where
  "exec P [] st = st"
| "exec P (a # as) st = exec P as (advance P a st)"

text \<open>
  \<open>start\<close>, lines 26 to 68, with \<open>main\<close>'s \<open>os.Exit\<close>. Lines 27 to 53 run before the
  task exists and are a function of the environment; \<open>release\<close> is the variable set by
  the linker. Line 29 prints the error of \<open>createLogger\<close> and goes on. Line 33 calls
  \<open>With\<close> on the logger \<open>createLogger\<close> returned, with no check that it is not nil: on
  a nil logger the call panics, no deferred call is registered yet, and the process dies
  with status 2 before the server is constructed (\<open>Panic\<close>, with the events so far).
  Otherwise the result is the state the given run leads to.
\<close>

datatype crash = Panic "event list"

definition start ::
  "zap \<Rightarrow> string \<Rightarrow> environ \<Rightarrow> 'srv server_pkg \<Rightarrow> action list \<Rightarrow> crash + 'srv state" where
  "start Z release env P sched =
     (let logEnv = getStringOrDefault env ''LOG_ENV'' ''development'';
          (log0, err) = createLogger Z logEnv;
          out = (case err of
                   None \<Rightarrow> []
                 | Some e \<Rightarrow> [Println (''Error setting up the logger: '' @ e)])
      in case log0 of
           None \<Rightarrow> Inl (Panic out)
         | Some lg \<Rightarrow>
             (let log = With lg ''release'' release;
                  host = getStringOrDefault env ''HOST'' ''localhost'';
                  port = getIntOrDefault env ''PORT'' 8080;
                  s = New P \<lparr>Host = host, Log = log, Port = port\<rparr>
              in Inr (exec P sched
                   \<lparr>mpc = M_Go, tpc = T_Idle, wg = 0, eg_err = None, ctx_done = False,
                    registered = True, logger = log, server = s, trace = out,
                    written = []\<rparr>)))"

text \<open>
  What the outside sees of a process: its exit status (2 after a panic), and the
  entries in its log.
\<close>

definition exit_code :: "crash + 'srv state \<Rightarrow> int option" where
  "exit_code res = (case res of Inl c \<Rightarrow> Some 2 | Inr st \<Rightarrow> exit_status st)"

definition log_output :: "crash + 'srv state \<Rightarrow> entry list" where
  "log_output res = (case res of Inl c \<Rightarrow> [] | Inr st \<Rightarrow> written st)"

definition stop_calls :: "crash + 'srv state \<Rightarrow> nat" where
  "stop_calls res =
     (case res of
        Inl (Panic tr) \<Rightarrow> length (filter (\<lambda>e. e = StopCalled) tr)
      | Inr st \<Rightarrow> length (filter (\<lambda>e. e = StopCalled) (trace st)))"

section \<open>Reachable states\<close>

text \<open>
  What follows is used in the proofs only. \<open>own_events\<close> are the events of the program
  itself, the deliveries of signals left out. \<open>finish\<close> is a run that lets the main flow
  spawn the task, the task run to its end and the main flow run to \<open>os.Exit\<close>, with no
  signal in it. \<open>consistent\<close> describes the states a run can reach: which program points
  go together, what the errgroup holds there, which events have happened and what the
  logger has written. \<open>working_zap\<close> and \<open>failing_zap\<close> are a machine on which both
  logger configurations build and one on which the development configuration does not;
  \<open>example_server\<close> is a server whose \<open>Stop\<close> returns a given result.
\<close>

definition is_signal :: "event \<Rightarrow> bool" where
  "is_signal e = (case e of Delivered sg \<Rightarrow> True | _ \<Rightarrow> False)"

definition is_print :: "event \<Rightarrow> bool" where
  "is_print e = (case e of Println l \<Rightarrow> True | _ \<Rightarrow> False)"

definition is_log :: "event \<Rightarrow> bool" where
  "is_log e = (case e of LogInfo m err \<Rightarrow> True | _ \<Rightarrow> False)"

definition working_zap :: zap where
  "working_zap = \<lparr>ProductionBuild = None, DevelopmentBuild = None\<rparr>"

definition failing_zap :: zap where
  "failing_zap =
     \<lparr>ProductionBuild = None, DevelopmentBuild = Some ''cannot open the log sink''\<rparr>"

definition example_server :: "error option \<Rightarrow> Options server_pkg" where
  "example_server r = \<lparr>New = (\<lambda>opts. opts), Stop = (\<lambda>srv. r)\<rparr>"

definition own_events :: "event list \<Rightarrow> event list" where
  "own_events tr = filter (\<lambda>e. \<not> is_signal e) tr"

definition finish :: "action list" where
  "finish = [RunMain, RunTask, RunTask, RunTask, RunTask, RunMain, RunMain, RunMain, RunMain]"

definition code_of :: "error option \<Rightarrow> int" where
  "code_of r = (case r of None \<Rightarrow> 0 | Some err \<Rightarrow> 1)"

definition logs_of :: "error option \<Rightarrow> event list" where
  "logs_of r = (case r of None \<Rightarrow> [] | Some err \<Rightarrow> [LogInfo ''Error stopping server'' err])"

fun task_events :: "error option \<Rightarrow> task_pc \<Rightarrow> event list" where
  "task_events r T_Idle = []"
| "task_events r T_Done = []"
| "task_events r T_Stop = []"
| "task_events r (T_Log e) = [StopCalled]"
| "task_events r (T_Return x) = StopCalled # logs_of r"
| "task_events r T_Finished = StopCalled # logs_of r @ [TaskReturned r]"

fun task_written :: "Logger \<Rightarrow> error option \<Rightarrow> task_pc \<Rightarrow> entry list" where
  "task_written lg (Some e) (T_Return x) = Info lg ''Error stopping server'' e"
| "task_written lg (Some e) T_Finished = Info lg ''Error stopping server'' e"
| "task_written lg r t = []"

fun main_events :: "error option \<Rightarrow> main_pc \<Rightarrow> event list" where
  "main_events r M_Go = []"
| "main_events r M_Wait = []"
| "main_events r (M_DeferStop rc) = [WaitReturned r]"
| "main_events r (M_DeferSync rc) = [WaitReturned r, NotifyStopped]"
| "main_events r (M_Exit rc) = [WaitReturned r, NotifyStopped, LogSync]"
| "main_events r (M_Exited rc) = [WaitReturned r, NotifyStopped, LogSync, Exit rc]"

fun task_ok :: "error option \<Rightarrow> task_pc \<Rightarrow> nat \<Rightarrow> error option \<Rightarrow> bool" where
  "task_ok r T_Idle w ge = False"
| "task_ok r T_Done w ge = (w = 1 \<and> ge = None)"
| "task_ok r T_Stop w ge = (w = 1 \<and> ge = None)"
| "task_ok r (T_Log e) w ge = (w = 1 \<and> ge = None \<and> r = Some e)"
| "task_ok r (T_Return x) w ge = (w = 1 \<and> ge = None \<and> x = r)"
| "task_ok r T_Finished w ge = (w = 0 \<and> ge = r)"

fun pcs_ok :: "error option \<Rightarrow> main_pc \<Rightarrow> task_pc \<Rightarrow> nat \<Rightarrow> error option \<Rightarrow> bool \<Rightarrow> bool" where
  "pcs_ok r M_Go t w ge reg = (t = T_Idle \<and> w = 0 \<and> ge = None \<and> reg)"
| "pcs_ok r M_Wait t w ge reg = (task_ok r t w ge \<and> reg)"
| "pcs_ok r (M_DeferStop rc) t w ge reg = (t = T_Finished \<and> w = 0 \<and> ge = r \<and> rc = code_of r \<and> reg)"
| "pcs_ok r (M_DeferSync rc) t w ge reg = (t = T_Finished \<and> w = 0 \<and> ge = r \<and> rc = code_of r \<and> \<not> reg)"
| "pcs_ok r (M_Exit rc) t w ge reg = (t = T_Finished \<and> w = 0 \<and> ge = r \<and> rc = code_of r \<and> \<not> reg)"
| "pcs_ok r (M_Exited rc) t w ge reg = (t = T_Finished \<and> w = 0 \<and> ge = r \<and> rc = code_of r \<and> \<not> reg)"

definition consistent :: "'srv server_pkg \<Rightarrow> event list \<Rightarrow> 'srv state \<Rightarrow> bool" where
  "consistent P out st =
     (pcs_ok (Stop P (server st)) (mpc st) (tpc st) (wg st) (eg_err st) (registered st)
      \<and> own_events (trace st) =
          out @ task_events (Stop P (server st)) (tpc st) @ main_events (Stop P (server st)) (mpc st)
      \<and> written st = task_written (logger st) (Stop P (server st)) (tpc st))"

definition startup_out :: "zap \<Rightarrow> environ \<Rightarrow> event list" where
  "startup_out Z env =
     (case snd (createLogger Z (getStringOrDefault env ''LOG_ENV'' ''development'')) of
        None \<Rightarrow> []
      | Some e \<Rightarrow> [Println (''Error setting up the logger: '' @ e)])"

fun task_rank :: "task_pc \<Rightarrow> nat" where
  "task_rank T_Idle = 5"
| "task_rank T_Done = 4"
| "task_rank T_Stop = 3"
| "task_rank (T_Log e) = 2"
| "task_rank (T_Return r) = 1"
| "task_rank T_Finished = 0"

fun main_rank :: "main_pc \<Rightarrow> nat" where
  "main_rank M_Go = 5"
| "main_rank M_Wait = 4"
| "main_rank (M_DeferStop rc) = 3"
| "main_rank (M_DeferSync rc) = 2"
| "main_rank (M_Exit rc) = 1"
| "main_rank (M_Exited rc) = 0"

subsection \<open>Runs keep the state consistent\<close>

lemma own_events_snoc [simp]:
  "own_events (tr @ [e]) = (if is_signal e then own_events tr else own_events tr @ [e])"
  by (simp add: own_events_def)

lemma is_signal_simps [simp]:
  "is_signal (Delivered sg)" "\<not> is_signal (Println l)" "\<not> is_signal StopCalled"
  "\<not> is_signal (LogInfo m e)" "\<not> is_signal (TaskReturned r)" "\<not> is_signal (WaitReturned r)"
  "\<not> is_signal NotifyStopped" "\<not> is_signal LogSync" "\<not> is_signal (Exit rc)"
  by (simp_all add: is_signal_def)

lemma main_step_inv:
  assumes "consistent P out st" and "main_step st = Some st'"
  shows "consistent P out st'"
proof (cases "mpc st")
  case M_Go
  with assms show ?thesis
    by (auto simp: consistent_def main_step_def)
next
  case M_Wait
  with assms show ?thesis
    by (cases "tpc st") (auto simp: consistent_def main_step_def emit_def code_of_def split: if_splits)
next
  case (M_DeferStop rc)
  with assms show ?thesis
    by (auto simp: consistent_def main_step_def emit_def)
next
  case (M_DeferSync rc)
  with assms show ?thesis
    by (auto simp: consistent_def main_step_def emit_def)
next
  case (M_Exit rc)
  with assms show ?thesis
    by (auto simp: consistent_def main_step_def emit_def)
next
  case (M_Exited rc)
  with assms show ?thesis
    by (simp add: main_step_def)
qed


lemma task_step_inv:
  assumes "consistent P out st" and "task_step P st = Some st'"
  shows "consistent P out st'"
proof (cases "mpc st")
  case M_Wait
  with assms show ?thesis
    by (cases "tpc st")
       (auto simp: consistent_def task_step_def emit_def exit_status_def logs_of_def
          split: option.splits)
qed (use assms in \<open>auto simp: consistent_def task_step_def exit_status_def\<close>)

lemma deliver_inv:
  assumes "consistent P out st" and "deliver sg st = Some st'"
  shows "consistent P out st'"
  using assms
  by (auto simp: consistent_def deliver_def emit_def split: if_splits)

lemma step_inv: "consistent P out st \<Longrightarrow> step P a st = Some st' \<Longrightarrow> consistent P out st'"
  by (cases a) (auto simp: step_def intro: main_step_inv task_step_inv deliver_inv)

lemma advance_inv: "consistent P out st \<Longrightarrow> consistent P out (advance P a st)"
  by (cases "step P a st") (simp_all add: advance_def step_inv)

lemma exec_inv: "consistent P out st \<Longrightarrow> consistent P out (exec P sched st)"
  by (induction sched arbitrary: st) (simp_all add: advance_inv)

lemma advance_server [simp]: "server (advance P a st) = server st"
  by (cases a)
     (auto simp: advance_def step_def main_step_def task_step_def deliver_def emit_def
        split: option.splits main_pc.splits task_pc.splits if_splits)

lemma advance_logger [simp]: "logger (advance P a st) = logger st"
  by (cases a)
     (auto simp: advance_def step_def main_step_def task_step_def deliver_def emit_def
        split: option.splits main_pc.splits task_pc.splits if_splits)

lemma exec_server [simp]: "server (exec P sched st) = server st"
  by (induction sched arbitrary: st) simp_all

lemma exec_logger [simp]: "logger (exec P sched st) = logger st"
  by (induction sched arbitrary: st) simp_all

lemma exec_append: "exec P (xs @ ys) st = exec P ys (exec P xs st)"
  by (induction xs arbitrary: st) simp_all

subsection \<open>Every run can be completed\<close>

lemma spawn_progress:
  assumes "consistent P out st"
  shows "mpc (advance P RunMain st) \<noteq> M_Go"
  using assms
  by (cases "mpc st")
     (auto simp: advance_def step_def main_step_def emit_def consistent_def split: if_splits)

lemma task_progress:
  assumes "consistent P out st" and "mpc st \<noteq> M_Go"
  shows "task_rank (tpc (advance P RunTask st)) \<le> task_rank (tpc st) - 1
         \<and> mpc (advance P RunTask st) \<noteq> M_Go"
proof (cases "mpc st")
  case M_Wait
  with assms show ?thesis
    by (cases "tpc st")
       (auto simp: advance_def step_def task_step_def emit_def consistent_def exit_status_def
          split: option.splits)
next
  case (M_Exited rc)
  with assms show ?thesis
    by (simp add: advance_def step_def task_step_def consistent_def exit_status_def)
qed (use assms in \<open>auto simp: advance_def step_def task_step_def consistent_def exit_status_def\<close>)

lemma main_progress:
  assumes "consistent P out st" and "tpc st = T_Finished"
  shows "main_rank (mpc (advance P RunMain st)) \<le> main_rank (mpc st) - 1
         \<and> tpc (advance P RunMain st) = T_Finished"
  using assms
  by (cases "mpc st")
     (auto simp: advance_def step_def main_step_def emit_def consistent_def)


lemma task_runs:
  assumes "consistent P out st" and "mpc st \<noteq> M_Go"
  shows "task_rank (tpc (exec P (replicate n RunTask) st)) \<le> task_rank (tpc st) - n
         \<and> mpc (exec P (replicate n RunTask) st) \<noteq> M_Go"
  using assms
proof (induction n arbitrary: st)
  case 0
  then show ?case by simp
next
  case (Suc n)
  let ?st = "advance P RunTask st"
  from Suc.prems have p: "task_rank (tpc ?st) \<le> task_rank (tpc st) - 1" "mpc ?st \<noteq> M_Go"
    using task_progress by blast+
  from Suc.prems have "consistent P out ?st" by (simp add: advance_inv)
  with p Suc.IH [of ?st] show ?case by auto
qed

lemma main_runs:
  assumes "consistent P out st" and "tpc st = T_Finished"
  shows "main_rank (mpc (exec P (replicate n RunMain) st)) \<le> main_rank (mpc st) - n"
  using assms
proof (induction n arbitrary: st)
  case 0
  then show ?case by simp
next
  case (Suc n)
  let ?st = "advance P RunMain st"
  from Suc.prems have p: "main_rank (mpc ?st) \<le> main_rank (mpc st) - 1" "tpc ?st = T_Finished"
    using main_progress by blast+
  from Suc.prems have "consistent P out ?st" by (simp add: advance_inv)
  with p Suc.IH [of ?st] show ?case by auto
qed

lemma finish_split:
  "finish = [RunMain] @ replicate 4 RunTask @ replicate 4 RunMain"
  by (simp add: finish_def numeral_eq_Suc)

lemma spawned_rank:
  "consistent P out st \<Longrightarrow> mpc st \<noteq> M_Go \<Longrightarrow> task_rank (tpc st) \<le> 4 \<and> main_rank (mpc st) \<le> 4"
  by (cases "mpc st"; cases "tpc st") (simp_all add: consistent_def)

lemma exited_code:
  "consistent P out st \<Longrightarrow> main_rank (mpc st) = 0 \<Longrightarrow>
     exit_status st = Some (code_of (Stop P (server st)))"
  by (cases "mpc st") (simp_all add: consistent_def exit_status_def)

lemma finish_exits:
  assumes "consistent P out st"
  shows "exit_status (exec P finish st) = Some (code_of (Stop P (server st)))"
proof -
  let ?s1 = "exec P [RunMain] st"
  let ?s2 = "exec P (replicate 4 RunTask) ?s1"
  let ?s3 = "exec P (replicate 4 RunMain) ?s2"
  have e: "exec P finish st = ?s3"
    by (simp only: finish_split exec_append)
  have c1: "consistent P out ?s1" and c2: "consistent P out ?s2" and c3: "consistent P out ?s3"
    using assms by (simp_all only: exec_inv)
  have m1: "mpc ?s1 \<noteq> M_Go"
    using assms spawn_progress by simp
  have "task_rank (tpc ?s1) \<le> 4"
    using c1 m1 spawned_rank by blast
  with task_runs [OF c1 m1, of 4] have t2: "task_rank (tpc ?s2) = 0" and m2: "mpc ?s2 \<noteq> M_Go"
    by simp_all
  from t2 have f2: "tpc ?s2 = T_Finished"
    by (cases "tpc ?s2") simp_all
  have "main_rank (mpc ?s2) \<le> 4"
    using c2 m2 spawned_rank by blast
  with main_runs [OF c2 f2, of 4] have "main_rank (mpc ?s3) = 0"
    by simp
  with c3 have "exit_status ?s3 = Some (code_of (Stop P (server ?s3)))"
    by (rule exited_code)
  with e show ?thesis by simp
qed

subsection \<open>The states of \<open>start\<close>\<close>

lemma start_run:
  "start Z release env P [] = Inr st0 \<Longrightarrow> start Z release env P sched = Inr (exec P sched st0)"
  by (auto simp: start_def Let_def split: prod.splits option.splits)

lemma start_run_D:
  "start Z release env P sched = Inr st \<Longrightarrow>
     \<exists>st0. start Z release env P [] = Inr st0 \<and> st = exec P sched st0"
  by (auto simp: start_def Let_def split: prod.splits option.splits)

lemma start_panic:
  "fst (createLogger Z (getStringOrDefault env ''LOG_ENV'' ''development'')) = None \<Longrightarrow>
     start Z release env P sched = Inl (Panic (startup_out Z env))"
  by (auto simp: start_def startup_out_def Let_def split: prod.splits option.splits)

lemma start_initial:
  assumes "start Z release env P [] = Inr st0"
  shows "trace st0 = startup_out Z env"
    and "mpc st0 = M_Go" and "tpc st0 = T_Idle" and "wg st0 = 0" and "eg_err st0 = None"
    and "\<not> ctx_done st0" and "registered st0" and "written st0 = []"
  using assms
  by (auto simp: start_def startup_out_def Let_def split: prod.splits option.splits)

lemma startup_out_own: "own_events (startup_out Z env) = startup_out Z env"
  by (simp add: startup_out_def own_events_def is_signal_def split: option.split)

lemma start_consistent:
  assumes "start Z release env P sched = Inr st"
  shows "consistent P (startup_out Z env) st"
proof -
  from assms obtain st0 where st0: "start Z release env P [] = Inr st0"
    and st: "st = exec P sched st0"
    using start_run_D by blast
  from start_initial [OF st0] have "consistent P (startup_out Z env) st0"
    by (simp add: consistent_def startup_out_own)
  with st show ?thesis
    by (simp add: exec_inv)
qed

lemma start_logger_server:
  assumes "start Z release env P sched = Inr st"
  shows "\<exists>lg. fst (createLogger Z (getStringOrDefault env ''LOG_ENV'' ''development'')) = Some lg
           \<and> logger st = With lg ''release'' release
           \<and> server st =
               New P \<lparr>Host = getStringOrDefault env ''HOST'' ''localhost'',
                      Log = With lg ''release'' release,
                      Port = getIntOrDefault env ''PORT'' 8080\<rparr>"
  using assms
  by (auto simp: start_def Let_def split: prod.splits option.splits)

lemma start_not_nil:
  assumes "fst (createLogger Z (getStringOrDefault env ''LOG_ENV'' ''development'')) = Some lg"
  shows "\<exists>st. start Z release env P sched = Inr st"
  using assms
  by (auto simp: start_def Let_def split: prod.splits option.splits)

lemma filter_own_events:
  "(\<And>e. p e \<Longrightarrow> \<not> is_signal e) \<Longrightarrow> filter p (own_events tr) = filter p tr"
  by (induction tr) (auto simp: own_events_def)

lemma start_own_events:
  assumes "start Z release env P sched = Inr st"
  shows "own_events (trace st) =
           startup_out Z env @ task_events (Stop P (server st)) (tpc st)
             @ main_events (Stop P (server st)) (mpc st)"
  using start_consistent [OF assms] by (simp add: consistent_def)

lemma start_pcs_ok:
  assumes "start Z release env P sched = Inr st"
  shows "pcs_ok (Stop P (server st)) (mpc st) (tpc st) (wg st) (eg_err st) (registered st)"
  using start_consistent [OF assms] by (simp add: consistent_def)

lemma start_written:
  assumes "start Z release env P sched = Inr st"
  shows "written st = task_written (logger st) (Stop P (server st)) (tpc st)"
  using start_consistent [OF assms] by (simp add: consistent_def)

lemma start_finish:
  assumes "start Z release env P sched = Inr st"
  shows "start Z release env P (sched @ finish) = Inr (exec P finish st)"
    and "exit_status (exec P finish st) = Some (code_of (Stop P (server st)))"
proof -
  from assms obtain st0 where st0: "start Z release env P [] = Inr st0"
    and st: "st = exec P sched st0"
    using start_run_D by blast
  show "start Z release env P (sched @ finish) = Inr (exec P finish st)"
    using start_run [OF st0, of "sched @ finish"] st by (simp add: exec_append)
  show "exit_status (exec P finish st) = Some (code_of (Stop P (server st)))"
    using finish_exits [OF start_consistent [OF assms]] .
qed

lemma stop_count:
  "length (filter (\<lambda>e. e = StopCalled) (task_events r t @ main_events r m)) =
     (if task_rank t \<le> 2 then 1 else 0)"
  by (cases t; cases m; cases r) (simp_all add: logs_of_def)

lemma log_count:
  "length (filter is_log (task_events r t @ main_events r m)) =
     (if task_rank t \<le> 1 \<and> r \<noteq> None then 1 else 0)"
  by (cases t; cases m; cases r) (simp_all add: logs_of_def is_log_def)

lemma print_count: "filter is_print (task_events r t @ main_events r m) = []"
  by (cases t; cases m; cases r) (simp_all add: logs_of_def is_print_def)

lemma out_prints: "filter is_print (startup_out Z env) = startup_out Z env"
  by (simp add: startup_out_def is_print_def split: option.split)

lemma out_no_stop: "filter (\<lambda>e. e = StopCalled) (startup_out Z env) = []"
  by (simp add: startup_out_def split: option.split)

lemma out_no_log: "filter is_log (startup_out Z env) = []"
  by (simp add: startup_out_def is_log_def split: option.split)

lemma start_prints:
  assumes "start Z release env P sched = Inr st"
  shows "filter is_print (trace st) = startup_out Z env"
proof -
  have "filter is_print (trace st) = filter is_print (own_events (trace st))"
    by (rule filter_own_events [symmetric]) (auto simp: is_print_def is_signal_def split: event.splits)
  then show ?thesis
    using print_count [of "Stop P (server st)" "tpc st" "mpc st"]
    by (simp add: start_own_events [OF assms] out_prints)
qed

lemma start_stop_count:
  assumes "start Z release env P sched = Inr st"
  shows "length (filter (\<lambda>e. e = StopCalled) (trace st)) =
           (if task_rank (tpc st) \<le> 2 then 1 else 0)"
proof -
  have "filter (\<lambda>e. e = StopCalled) (trace st) =
        filter (\<lambda>e. e = StopCalled) (own_events (trace st))"
    by (rule filter_own_events [symmetric]) simp
  then show ?thesis
    using stop_count by (simp add: start_own_events [OF assms] out_no_stop)
qed

lemma start_log_count:
  assumes "start Z release env P sched = Inr st"
  shows "length (filter is_log (trace st)) =
           (if task_rank (tpc st) \<le> 1 \<and> Stop P (server st) \<noteq> None then 1 else 0)"
proof -
  have "filter is_log (trace st) = filter is_log (own_events (trace st))"
    by (rule filter_own_events [symmetric]) (auto simp: is_log_def is_signal_def split: event.splits)
  then show ?thesis
    using log_count by (simp add: start_own_events [OF assms] out_no_log)
qed

lemma start_exited:
  assumes "start Z release env P sched = Inr st" and "exit_status st = Some rc"
  shows "mpc st = M_Exited rc"
    and "tpc st = T_Finished"
    and "rc = code_of (Stop P (server st))"
  using assms(2) start_pcs_ok [OF assms(1)]
  by (cases "mpc st"; simp add: exit_status_def)+

lemma trace_grows: "\<exists>more. trace (exec P sched st) = trace st @ more"
proof (induction sched arbitrary: st)
  case Nil
  then show ?case by simp
next
  case (Cons a sched)
  have "\<exists>m. trace (advance P a st) = trace st @ m"
    by (cases a)
       (auto simp: advance_def step_def main_step_def task_step_def deliver_def emit_def
          split: option.splits main_pc.splits task_pc.splits if_splits)
  with Cons.IH [of "advance P a st"] show ?case
    by auto
qed

lemma no_signal_steps:
  assumes "Deliver SIGTERM \<notin> set sched" and "Deliver SIGINT \<notin> set sched"
  shows "filter is_signal (trace (exec P sched st)) = filter is_signal (trace st)"
  using assms
proof (induction sched arbitrary: st)
  case Nil
  then show ?case by simp
next
  case (Cons a sched)
  from Cons.prems have "a = RunMain \<or> a = RunTask"
    by (cases a rule: action.exhaust; cases "case a of Deliver sg \<Rightarrow> sg | _ \<Rightarrow> SIGTERM") auto
  then have "filter is_signal (trace (advance P a st)) = filter is_signal (trace st)"
    by (auto simp: advance_def step_def main_step_def task_step_def emit_def is_signal_def
          split: option.splits main_pc.splits task_pc.splits if_splits)
  with Cons show ?case by simp
qed

lemma startup_no_signal: "filter is_signal (startup_out Z env) = []"
  by (simp add: startup_out_def is_signal_def split: option.split)

lemma start_profile:
  assumes "start Z release env P sched = Inr st"
  shows "profile (logger st) =
           (if getStringOrDefault env ''LOG_ENV'' ''development'' = ''production'' then Production
            else if getStringOrDefault env ''LOG_ENV'' ''development'' = ''development''
            then Development else Nop)"
    and "lfields (logger st) = [(''release'', release)]"
    and "startup_out Z env = []"
  using start_logger_server [OF assms]
  by (auto simp: createLogger_def NewProduction_def NewDevelopment_def NewNop_def With_def
        startup_out_def split: if_splits option.splits)

lemma first_steps:
  assumes "start Z release env P [] = Inr st0"
  shows "trace (exec P [RunMain, RunTask, RunTask] st0) = trace st0 @ [StopCalled]"
    and "\<not> ctx_done (exec P [RunMain, RunTask, RunTask] st0)"
    and "registered (exec P [RunMain, RunTask, RunTask] st0)"
    and "exit_status (exec P [RunMain, RunTask, RunTask] st0) = None"
  using start_initial [OF assms]
  by (cases "Stop P (server st0)";
      simp add: advance_def step_def main_step_def task_step_def emit_def exit_status_def)+

section \<open>The claims\<close>

text \<open>
  C1. The coordination task blocks until SIGTERM or SIGINT is delivered, and \<open>Stop\<close> is
  called only after such a signal; before any delivery no call to \<open>Stop\<close> occurs.

  The code does not do this. Line 56 is \<open>ctx.Done()\<close>, a call that returns the channel
  and does not receive from it, so the task never waits. Once the process is past line 33,
  in the run in which the main flow spawns the task and the task takes two steps, with no
  signal delivered at all, the events are those of the start-up followed by the call of
  \<open>Stop\<close>; no delivery is among them and the context is not cancelled.
\<close>

theorem stop_called_without_signal:
  assumes "start Z release env P [] = Inr st0"
  shows "\<exists>st. start Z release env P [RunMain, RunTask, RunTask] = Inr st
           \<and> trace st = trace st0 @ [StopCalled]
           \<and> filter is_signal (trace st) = []
           \<and> \<not> ctx_done st"
proof -
  have "start Z release env P [RunMain, RunTask, RunTask] =
          Inr (exec P [RunMain, RunTask, RunTask] st0)"
    using assms by (rule start_run)
  moreover have "filter is_signal (trace (exec P [RunMain, RunTask, RunTask] st0)) = []"
    using first_steps(1) [OF assms] start_initial(1) [OF assms]
    by (simp add: startup_no_signal)
  ultimately show ?thesis
    using first_steps(1,2) [OF assms] by blast
qed

theorem stop_called_without_signal_witness:
  "\<exists>st0 st. start working_zap ''v1'' Map.empty (example_server None) [] = Inr st0
     \<and> start working_zap ''v1'' Map.empty (example_server None) [RunMain, RunTask, RunTask] = Inr st
     \<and> trace st = trace st0 @ [StopCalled]
     \<and> filter is_signal (trace st) = []
     \<and> \<not> ctx_done st"
proof -
  have "fst (createLogger working_zap (getStringOrDefault Map.empty ''LOG_ENV'' ''development''))
          = Some \<lparr>profile = Development, lfields = []\<rparr>"
    by (simp add: createLogger_def getStringOrDefault_def NewDevelopment_def working_zap_def)
  then obtain st0 where
    st0: "start working_zap ''v1'' Map.empty (example_server None) [] = Inr st0"
    using start_not_nil by blast
  from stop_called_without_signal [OF st0] st0 show ?thesis by blast
qed

text \<open>
  C2. The exit status is the image of the outcome of \<open>Stop\<close>: 0 when \<open>Stop\<close> returns
  \<open>nil\<close>, 1 when it returns an error. In every run past line 33: whenever the run has
  reached \<open>os.Exit\<close>, the status is that value; and the run, continued by \<open>finish\<close>,
  reaches \<open>os.Exit\<close> with it.
\<close>

theorem exit_status_of_stop:
  assumes "start Z release env P sched = Inr st"
  shows "(exit_status st = Some rc \<longrightarrow>
            rc = (case Stop P (server st) of None \<Rightarrow> 0 | Some err \<Rightarrow> 1))
         \<and> (\<exists>st'. start Z release env P (sched @ finish) = Inr st'
               \<and> exit_status st' =
                   Some (case Stop P (server st) of None \<Rightarrow> 0 | Some err \<Rightarrow> 1))"
  using start_exited(3) [OF assms, of rc] start_finish [OF assms]
  by (simp add: code_of_def)

theorem exit_status_of_stop_witness:
  "(\<exists>st. start working_zap ''v1'' Map.empty (example_server (Some ''listener busy'')) finish = Inr st
      \<and> exit_status st = Some 1
      \<and> (1::int) = (case Stop (example_server (Some ''listener busy'')) (server st)
                    of None \<Rightarrow> 0 | Some err \<Rightarrow> 1))
   \<and> (\<exists>st. start working_zap ''v1'' Map.empty (example_server None) finish = Inr st
      \<and> exit_status st = Some 0)"
proof -
  have c: "fst (createLogger working_zap (getStringOrDefault Map.empty ''LOG_ENV'' ''development''))
          = Some \<lparr>profile = Development, lfields = []\<rparr>"
    by (simp add: createLogger_def getStringOrDefault_def NewDevelopment_def working_zap_def)
  from c obtain s0 where
    s0: "start working_zap ''v1'' Map.empty (example_server (Some ''listener busy'')) [] = Inr s0"
    using start_not_nil by blast
  from c obtain t0 where
    t0: "start working_zap ''v1'' Map.empty (example_server None) [] = Inr t0"
    using start_not_nil by blast
  from exit_status_of_stop [OF s0] obtain s1 where
    s1: "start working_zap ''v1'' Map.empty (example_server (Some ''listener busy'')) finish = Inr s1"
      "exit_status s1 = Some 1"
    by (auto simp: example_server_def)
  from exit_status_of_stop [OF t0] obtain t1 where
    t1: "start working_zap ''v1'' Map.empty (example_server None) finish = Inr t1"
      "exit_status t1 = Some 0"
    by (auto simp: example_server_def)
  from exit_status_of_stop [OF s1(1), of 1] s1 t1 show ?thesis
    by (auto simp: example_server_def)
qed

text \<open>
  C3. Each of the three variables resolves to the value in the environment when the
  variable is set (for \<open>PORT\<close>: and \<open>Atoi\<close> accepts it) and to its default otherwise:
  \<open>LOG_ENV\<close> to \<open>development\<close>, \<open>HOST\<close> to \<open>localhost\<close>, \<open>PORT\<close> to 8080. The
  resolved values are those the logger is created from and the server is constructed
  with. \<open>PORT=abc\<close> gives 8080 and \<open>PORT=9090\<close> gives 9090.
\<close>

theorem config_resolution:
  assumes "start Z release env P sched = Inr st"
  shows "(\<exists>lg. fst (createLogger Z
                  (case env ''LOG_ENV'' of None \<Rightarrow> ''development'' | Some v \<Rightarrow> v)) = Some lg
            \<and> server st =
                New P \<lparr>Host = (case env ''HOST'' of None \<Rightarrow> ''localhost'' | Some v \<Rightarrow> v),
                       Log = With lg ''release'' release,
                       Port = (case env ''PORT'' of
                                 None \<Rightarrow> 8080
                               | Some v \<Rightarrow> (case Atoi v of Inl err \<Rightarrow> 8080 | Inr n \<Rightarrow> n))\<rparr>)
         \<and> getIntOrDefault (env(''PORT'' \<mapsto> ''abc'')) ''PORT'' 8080 = 8080
         \<and> getIntOrDefault (env(''PORT'' \<mapsto> ''9090'')) ''PORT'' 8080 = 9090"
proof -
  have "getIntOrDefault (env(''PORT'' \<mapsto> ''abc'')) ''PORT'' 8080 = 8080"
    "getIntOrDefault (env(''PORT'' \<mapsto> ''9090'')) ''PORT'' 8080 = 9090"
    by (simp_all add: getIntOrDefault_def Atoi_def isDigit_def IntSize_def)
  then show ?thesis
    using start_logger_server [OF assms]
    by (auto simp: getStringOrDefault_def getIntOrDefault_def)
qed

theorem config_resolution_witness:
  "(\<exists>st. start working_zap ''v1'' [''HOST'' \<mapsto> ''example.org'', ''PORT'' \<mapsto> ''9090'']
            (example_server None) [] = Inr st
      \<and> server st =
          \<lparr>Host = ''example.org'',
           Log = \<lparr>profile = Development, lfields = [(''release'', ''v1'')]\<rparr>, Port = 9090\<rparr>)
   \<and> (\<exists>st. start working_zap ''v1'' [''LOG_ENV'' \<mapsto> ''production'', ''PORT'' \<mapsto> ''abc'']
            (example_server None) [] = Inr st
      \<and> server st =
          \<lparr>Host = ''localhost'',
           Log = \<lparr>profile = Production, lfields = [(''release'', ''v1'')]\<rparr>, Port = 8080\<rparr>)"
proof -
  have "fst (createLogger working_zap (getStringOrDefault
          [''HOST'' \<mapsto> ''example.org'', ''PORT'' \<mapsto> ''9090''] ''LOG_ENV'' ''development''))
          = Some \<lparr>profile = Development, lfields = []\<rparr>"
    by (simp add: createLogger_def getStringOrDefault_def NewDevelopment_def working_zap_def)
  then obtain s where
    s: "start working_zap ''v1'' [''HOST'' \<mapsto> ''example.org'', ''PORT'' \<mapsto> ''9090'']
          (example_server None) [] = Inr s"
    using start_not_nil by blast
  have "fst (createLogger working_zap (getStringOrDefault
          [''LOG_ENV'' \<mapsto> ''production'', ''PORT'' \<mapsto> ''abc''] ''LOG_ENV'' ''development''))
          = Some \<lparr>profile = Production, lfields = []\<rparr>"
    by (simp add: createLogger_def getStringOrDefault_def NewProduction_def working_zap_def)
  then obtain t where
    t: "start working_zap ''v1'' [''LOG_ENV'' \<mapsto> ''production'', ''PORT'' \<mapsto> ''abc'']
          (example_server None) [] = Inr t"
    using start_not_nil by blast
  from config_resolution [OF s] config_resolution [OF t] s t show ?thesis
    by (auto simp: createLogger_def NewProduction_def NewDevelopment_def working_zap_def
          example_server_def With_def Atoi_def isDigit_def IntSize_def)
qed

text \<open>
  C4. \<open>createLogger\<close> selects one of three profiles from the environment name:
  \<open>production\<close> the production logger, \<open>development\<close> the development logger, and
  any other string, the empty one included, the no-op logger (with no error).
\<close>

theorem createLogger_selects:
  "createLogger Z ''production'' = NewProduction Z
   \<and> createLogger Z ''development'' = NewDevelopment Z
   \<and> (env \<noteq> ''production'' \<and> env \<noteq> ''development'' \<longrightarrow> createLogger Z env = (NewNop Z, None))
   \<and> createLogger Z '''' = (NewNop Z, None)"
  by (simp add: createLogger_def)

theorem createLogger_selects_witness:
  "''staging'' \<noteq> ''production'' \<and> ''staging'' \<noteq> ''development''
   \<and> createLogger failing_zap ''staging'' = (Some \<lparr>profile = Nop, lfields = []\<rparr>, None)
   \<and> createLogger failing_zap ''production'' = (Some \<lparr>profile = Production, lfields = []\<rparr>, None)
   \<and> createLogger failing_zap ''development'' = (None, Some ''cannot open the log sink'')
   \<and> createLogger failing_zap '''' = (Some \<lparr>profile = Nop, lfields = []\<rparr>, None)"
  using createLogger_selects [of failing_zap "''staging''"]
  by (simp add: failing_zap_def NewProduction_def NewDevelopment_def NewNop_def)

text \<open>
  C5. A failure to construct the logger is never fatal: \<open>start\<close> prints the error and
  continues to completion with whatever logger was returned.

  The code does not do this. Lines 29 to 31 print the error and go on, but what zap
  returns with an error is the nil logger, and line 33 calls \<open>With\<close> on it with no check:
  whenever \<open>createLogger\<close> returns an error, the process prints the line, panics and dies
  with status 2; the server is not constructed and \<open>Stop\<close> is not called.
\<close>

theorem logger_failure_is_fatal:
  assumes "snd (createLogger Z (getStringOrDefault env ''LOG_ENV'' ''development'')) = Some e"
  shows "start Z release env P sched =
           Inl (Panic [Println (''Error setting up the logger: '' @ e)])
         \<and> exit_code (start Z release env P sched) = Some 2
         \<and> stop_calls (start Z release env P sched) = 0"
proof -
  from assms have "fst (createLogger Z (getStringOrDefault env ''LOG_ENV'' ''development'')) = None"
    by (auto simp: createLogger_def NewProduction_def NewDevelopment_def
          split: if_splits option.splits)
  then have "start Z release env P sched = Inl (Panic (startup_out Z env))"
    by (rule start_panic)
  with assms show ?thesis
    by (simp add: startup_out_def exit_code_def stop_calls_def)
qed

theorem logger_failure_is_fatal_witness:
  "snd (createLogger failing_zap (getStringOrDefault Map.empty ''LOG_ENV'' ''development'')) =
     Some ''cannot open the log sink''
   \<and> start failing_zap ''v1'' Map.empty (example_server None) finish =
       Inl (Panic [Println ''Error setting up the logger: cannot open the log sink''])
   \<and> exit_code (start failing_zap ''v1'' Map.empty (example_server None) finish) = Some 2
   \<and> stop_calls (start failing_zap ''v1'' Map.empty (example_server None) finish) = 0"
proof -
  have c: "snd (createLogger failing_zap (getStringOrDefault Map.empty ''LOG_ENV'' ''development''))
             = Some ''cannot open the log sink''"
    by (simp add: createLogger_def getStringOrDefault_def NewDevelopment_def failing_zap_def)
  from c logger_failure_is_fatal [OF c, of "''v1''" "example_server None" finish]
  show ?thesis by (simp add: exit_code_def stop_calls_def)
qed

text \<open>
  C6. \<open>Stop\<close> is called exactly once per shutdown: the first delivered termination
  signal triggers exactly one shutdown attempt, and no call is repeated.

  The code does not do this, by the slip of C1: the one call of \<open>Stop\<close> is triggered by
  no signal. The run \<open>finish\<close>, in which no signal is delivered, makes its one call of
  \<open>Stop\<close> and exits. In a run in which SIGTERM is delivered after the task has passed
  line 57, the call of \<open>Stop\<close> comes before the delivery, and the delivery is followed by
  no call of \<open>Stop\<close> up to the exit.
\<close>

theorem stop_not_triggered_by_signal:
  assumes "start Z release env P [] = Inr st0"
  shows "(\<exists>st. start Z release env P finish = Inr st
            \<and> exit_status st \<noteq> None
            \<and> filter is_signal (trace st) = []
            \<and> length (filter (\<lambda>e. e = StopCalled) (trace st)) = 1)
         \<and> (\<exists>st more.
               start Z release env P ([RunMain, RunTask, RunTask, Deliver SIGTERM] @ finish) = Inr st
             \<and> exit_status st \<noteq> None
             \<and> trace st = trace st0 @ [StopCalled, Delivered SIGTERM] @ more
             \<and> StopCalled \<notin> set more)"
proof
  let ?st = "exec P finish st0"
  have r: "start Z release env P finish = Inr ?st"
    using assms by (rule start_run)
  have x: "exit_status ?st = Some (code_of (Stop P (server st0)))"
    using start_finish(2) [OF assms] .
  have f: "tpc ?st = T_Finished"
    using start_exited(2) [OF r] x by simp
  have "filter is_signal (trace ?st) = filter is_signal (trace st0)"
    by (rule no_signal_steps) (simp_all add: finish_def)
  then have s: "filter is_signal (trace ?st) = []"
    using start_initial(1) [OF assms] by (simp add: startup_no_signal)
  have "length (filter (\<lambda>e. e = StopCalled) (trace ?st)) = 1"
    using start_stop_count [OF r] f by simp
  with r x s show "\<exists>st. start Z release env P finish = Inr st
            \<and> exit_status st \<noteq> None
            \<and> filter is_signal (trace st) = []
            \<and> length (filter (\<lambda>e. e = StopCalled) (trace st)) = 1"
    by simp
next
  let ?s3 = "exec P [RunMain, RunTask, RunTask] st0"
  let ?s4 = "exec P [Deliver SIGTERM] ?s3"
  let ?st = "exec P finish ?s4"
  have r4: "start Z release env P [RunMain, RunTask, RunTask, Deliver SIGTERM] = Inr ?s4"
    using start_run [OF assms, of "[RunMain, RunTask, RunTask, Deliver SIGTERM]"] by simp
  have r: "start Z release env P ([RunMain, RunTask, RunTask, Deliver SIGTERM] @ finish) = Inr ?st"
    using start_finish(1) [OF r4] .
  have x: "exit_status ?st \<noteq> None"
    using start_finish(2) [OF r4] by simp
  then obtain rc where rc: "exit_status ?st = Some rc"
    by blast
  have t4: "trace ?s4 = trace st0 @ [StopCalled, Delivered SIGTERM]"
    using first_steps [OF assms]
    by (simp add: advance_def step_def deliver_def emit_def)
  obtain more where m: "trace ?st = trace ?s4 @ more"
    using trace_grows by blast
  have "length (filter (\<lambda>e. e = StopCalled) (trace ?st)) = 1"
    using start_stop_count [OF r] start_exited(2) [OF r rc] by simp
  moreover have "filter (\<lambda>e. e = StopCalled) (trace st0) = []"
    using start_initial(1) [OF assms] by (simp add: out_no_stop)
  ultimately have "filter (\<lambda>e. e = StopCalled) more = []"
    using m t4 by simp
  then have "StopCalled \<notin> set more"
    by (auto simp: filter_empty_conv)
  with r x m t4 show "\<exists>st more.
               start Z release env P ([RunMain, RunTask, RunTask, Deliver SIGTERM] @ finish) = Inr st
             \<and> exit_status st \<noteq> None
             \<and> trace st = trace st0 @ [StopCalled, Delivered SIGTERM] @ more
             \<and> StopCalled \<notin> set more"
    by auto
qed

theorem stop_not_triggered_by_signal_witness:
  "\<exists>st0 st. start working_zap ''v1'' Map.empty (example_server None) [] = Inr st0
     \<and> start working_zap ''v1'' Map.empty (example_server None) finish = Inr st
     \<and> exit_status st \<noteq> None
     \<and> filter is_signal (trace st) = []
     \<and> length (filter (\<lambda>e. e = StopCalled) (trace st)) = 1"
proof -
  have "fst (createLogger working_zap (getStringOrDefault Map.empty ''LOG_ENV'' ''development''))
          = Some \<lparr>profile = Development, lfields = []\<rparr>"
    by (simp add: createLogger_def getStringOrDefault_def NewDevelopment_def working_zap_def)
  then obtain st0 where
    st0: "start working_zap ''v1'' Map.empty (example_server None) [] = Inr st0"
    using start_not_nil by blast
  from stop_not_triggered_by_signal [OF st0] st0 show ?thesis by blast
qed

text \<open>
  C7. When \<open>Stop\<close> returns an error, the error is logged exactly once (one log record),
  the exit status 1 is the only other sign of it, and \<open>Stop\<close> is not called again.

  As stated this fails for the no-op logger, which \<open>createLogger\<close> chooses for every
  \<open>LOG_ENV\<close> other than \<open>production\<close> and \<open>development\<close>: with \<open>LOG_ENV=staging\<close>
  and a failing \<open>Stop\<close> the process exits with status 1 and its log is empty.
\<close>

theorem stop_failure_one_record_counterexample:
  "exit_code (start working_zap ''v1'' [''LOG_ENV'' \<mapsto> ''staging'']
      (example_server (Some ''listener busy'')) finish) = Some 1
   \<and> log_output (start working_zap ''v1'' [''LOG_ENV'' \<mapsto> ''staging'']
      (example_server (Some ''listener busy'')) finish) = []"
proof -
  have "fst (createLogger working_zap
          (getStringOrDefault [''LOG_ENV'' \<mapsto> ''staging''] ''LOG_ENV'' ''development''))
          = Some \<lparr>profile = Nop, lfields = []\<rparr>"
    by (simp add: createLogger_def getStringOrDefault_def NewNop_def)
  then obtain st0 where st0: "start working_zap ''v1'' [''LOG_ENV'' \<mapsto> ''staging'']
      (example_server (Some ''listener busy'')) [] = Inr st0"
    using start_not_nil by blast
  let ?st = "exec (example_server (Some ''listener busy'')) finish st0"
  have r: "start working_zap ''v1'' [''LOG_ENV'' \<mapsto> ''staging'']
      (example_server (Some ''listener busy'')) finish = Inr ?st"
    using st0 by (rule start_run)
  have x: "exit_status ?st = Some 1"
    using start_finish(2) [OF st0] by (simp add: code_of_def example_server_def)
  have "profile (logger ?st) = Nop"
    using start_profile(1) [OF r] by (simp add: getStringOrDefault_def)
  then have "written ?st = []"
    using start_written [OF r] start_exited(2) [OF r x]
    by (simp add: Info_def example_server_def)
  with r x show ?thesis
    by (simp add: exit_code_def log_output_def)
qed

text \<open>
  C7, as amended. When \<open>Stop\<close> returns an error and the process has exited, the events of
  the program after line 33 are exactly: the one call of \<open>Stop\<close>, the one call of
  \<open>log.Info\<close> with the error, the return of the task, the return of \<open>eg.Wait\<close>, the two
  deferred calls and the exit with status 1. So \<open>log.Info\<close> is called once, \<open>Stop\<close> is not
  called again, nothing is printed, and the status is 1. The call writes one entry, with
  the message, the release and the error, when \<open>LOG_ENV\<close> resolves to \<open>production\<close> or
  \<open>development\<close>, and nothing under the no-op logger of every other name.
\<close>

theorem stop_failure_logged_once:
  assumes "start Z release env P sched = Inr st"
    and "Stop P (server st) = Some e"
    and "exit_status st \<noteq> None"
  shows "own_events (trace st) =
           [StopCalled, LogInfo ''Error stopping server'' e, TaskReturned (Some e),
            WaitReturned (Some e), NotifyStopped, LogSync, Exit 1]
         \<and> length (filter is_log (trace st)) = 1
         \<and> length (filter (\<lambda>ev. ev = StopCalled) (trace st)) = 1
         \<and> filter is_print (trace st) = []
         \<and> exit_status st = Some 1
         \<and> written st =
             (if getStringOrDefault env ''LOG_ENV'' ''development'' = ''production''
                 \<or> getStringOrDefault env ''LOG_ENV'' ''development'' = ''development''
              then [(''Error stopping server'', [(''release'', release), (''error'', e)])]
              else [])"
proof -
  from assms(3) obtain rc where rc: "exit_status st = Some rc"
    by blast
  note ex = start_exited [OF assms(1) rc]
  from ex(3) assms(2) have "rc = 1" by (simp add: code_of_def)
  moreover have "written st =
      (if getStringOrDefault env ''LOG_ENV'' ''development'' = ''production''
          \<or> getStringOrDefault env ''LOG_ENV'' ''development'' = ''development''
       then [(''Error stopping server'', [(''release'', release), (''error'', e)])]
       else [])"
    using start_written [OF assms(1)] start_profile(1,2) [OF assms(1)] ex(2) assms(2)
    by (simp add: Info_def)
  ultimately show ?thesis
    using rc ex(1,2) assms(2) start_profile(3) [OF assms(1)]
    by (simp add: start_own_events [OF assms(1)] start_log_count [OF assms(1)]
          start_stop_count [OF assms(1)] start_prints [OF assms(1)] logs_of_def)
qed

theorem stop_failure_logged_once_witness:
  "\<exists>st. start working_zap ''v1'' [''LOG_ENV'' \<mapsto> ''production'']
           (example_server (Some ''listener busy'')) finish = Inr st
     \<and> Stop (example_server (Some ''listener busy'')) (server st) = Some ''listener busy''
     \<and> exit_status st \<noteq> None
     \<and> length (filter is_log (trace st)) = 1
     \<and> exit_status st = Some 1
     \<and> written st =
         [(''Error stopping server'', [(''release'', ''v1''), (''error'', ''listener busy'')])]"
proof -
  have "fst (createLogger working_zap
          (getStringOrDefault [''LOG_ENV'' \<mapsto> ''production''] ''LOG_ENV'' ''development''))
          = Some \<lparr>profile = Production, lfields = []\<rparr>"
    by (simp add: createLogger_def getStringOrDefault_def NewProduction_def working_zap_def)
  then obtain st0 where st0: "start working_zap ''v1'' [''LOG_ENV'' \<mapsto> ''production'']
      (example_server (Some ''listener busy'')) [] = Inr st0"
    using start_not_nil by blast
  let ?st = "exec (example_server (Some ''listener busy'')) finish st0"
  have r: "start working_zap ''v1'' [''LOG_ENV'' \<mapsto> ''production'']
      (example_server (Some ''listener busy'')) finish = Inr ?st"
    using st0 by (rule start_run)
  have s: "Stop (example_server (Some ''listener busy'')) (server ?st) = Some ''listener busy''"
    by (simp add: example_server_def)
  have x: "exit_status ?st \<noteq> None"
    using start_finish(2) [OF st0] by simp
  from stop_failure_logged_once [OF r s x] r s x show ?thesis
    by (simp add: getStringOrDefault_def)
qed

text \<open>
  C8. \<open>getIntOrDefault\<close> checks no range: whatever integer \<open>Atoi\<close> returns is the
  result, a negative one or one that is no TCP port included. A variable that is not set
  and a value \<open>Atoi\<close> rejects give the default; the function has no error result.
\<close>

theorem getIntOrDefault_no_validation:
  "(env name = Some v \<and> Atoi v = Inr n \<longrightarrow> getIntOrDefault env name d = n)
   \<and> (env name = None \<longrightarrow> getIntOrDefault env name d = d)
   \<and> (env name = Some v \<and> Atoi v = Inl e \<longrightarrow> getIntOrDefault env name d = d)"
  by (simp add: getIntOrDefault_def)

theorem getIntOrDefault_no_validation_witness:
  "[''PORT'' \<mapsto> ''-1''] ''PORT'' = Some ''-1'' \<and> Atoi ''-1'' = Inr (- 1)
   \<and> getIntOrDefault [''PORT'' \<mapsto> ''-1''] ''PORT'' 8080 = - 1
   \<and> [''PORT'' \<mapsto> ''70000''] ''PORT'' = Some ''70000'' \<and> Atoi ''70000'' = Inr 70000
   \<and> getIntOrDefault [''PORT'' \<mapsto> ''70000''] ''PORT'' 8080 = 70000
   \<and> Map.empty ''PORT'' = (None :: string option)
   \<and> getIntOrDefault Map.empty ''PORT'' 8080 = 8080
   \<and> [''PORT'' \<mapsto> ''80 ''] ''PORT'' = Some ''80 '' \<and> Atoi ''80 '' = Inl ErrSyntax
   \<and> getIntOrDefault [''PORT'' \<mapsto> ''80 ''] ''PORT'' 8080 = 8080"
proof -
  have a: "Atoi ''-1'' = Inr (- 1)" "Atoi ''70000'' = Inr 70000" "Atoi ''80 '' = Inl ErrSyntax"
    by (simp_all add: Atoi_def isDigit_def IntSize_def)
  from a
    getIntOrDefault_no_validation [of "[''PORT'' \<mapsto> ''-1'']" "''PORT''" "''-1''" "- 1" 8080]
    getIntOrDefault_no_validation [of "[''PORT'' \<mapsto> ''70000'']" "''PORT''" "''70000''" 70000 8080]
    getIntOrDefault_no_validation [of Map.empty "''PORT''" "''80 ''" 0 8080 ErrSyntax]
    getIntOrDefault_no_validation [of "[''PORT'' \<mapsto> ''80 '']" "''PORT''" "''80 ''" 0 8080 ErrSyntax]
  show ?thesis by simp
qed

text \<open>
  C9. The process does not exit before the coordination task has completed. In every
  run past line 33: while the task has not finished, the main flow at \<open>eg.Wait\<close> cannot
  move; once the main flow is past \<open>eg.Wait\<close> the task has finished; and in a run that has
  exited, the return of the task comes before the return of \<open>eg.Wait\<close>, the deferred
  calls and the exit.
\<close>

theorem exit_only_after_task:
  assumes "start Z release env P sched = Inr st"
  shows "(mpc st = M_Wait \<and> tpc st \<noteq> T_Finished \<longrightarrow> main_step st = None)
         \<and> (mpc st \<noteq> M_Go \<and> mpc st \<noteq> M_Wait \<longrightarrow> tpc st = T_Finished)
         \<and> (exit_status st = Some rc
            \<longrightarrow> tpc st = T_Finished
                \<and> (\<exists>pre r. own_events (trace st) =
                      pre @ [TaskReturned r, WaitReturned r, NotifyStopped, LogSync, Exit rc]))"
proof (intro conjI impI)
  assume "mpc st = M_Wait \<and> tpc st \<noteq> T_Finished"
  then show "main_step st = None"
    using start_pcs_ok [OF assms]
    by (cases "tpc st") (simp_all add: main_step_def)
next
  assume "mpc st \<noteq> M_Go \<and> mpc st \<noteq> M_Wait"
  then show "tpc st = T_Finished"
    using start_pcs_ok [OF assms]
    by (cases "mpc st") simp_all
next
  assume rc: "exit_status st = Some rc"
  show "tpc st = T_Finished"
    using assms rc by (rule start_exited(2))
next
  assume rc: "exit_status st = Some rc"
  let ?r = "Stop P (server st)"
  from start_exited(1,2) [OF assms rc]
  have "own_events (trace st) =
          (startup_out Z env @ StopCalled # logs_of ?r)
            @ [TaskReturned ?r, WaitReturned ?r, NotifyStopped, LogSync, Exit rc]"
    by (simp add: start_own_events [OF assms])
  then show "\<exists>pre r. own_events (trace st) =
                pre @ [TaskReturned r, WaitReturned r, NotifyStopped, LogSync, Exit rc]"
    by blast
qed

theorem exit_only_after_task_witness:
  "(\<exists>st. start working_zap ''v1'' Map.empty (example_server None) [RunMain, RunTask, RunMain] = Inr st
      \<and> mpc st = M_Wait \<and> tpc st \<noteq> T_Finished \<and> main_step st = None)
   \<and> (\<exists>st. start working_zap ''v1'' Map.empty (example_server None) finish = Inr st
      \<and> exit_status st = Some 0 \<and> mpc st \<noteq> M_Go \<and> mpc st \<noteq> M_Wait \<and> tpc st = T_Finished)"
proof -
  have "fst (createLogger working_zap (getStringOrDefault Map.empty ''LOG_ENV'' ''development''))
          = Some \<lparr>profile = Development, lfields = []\<rparr>"
    by (simp add: createLogger_def getStringOrDefault_def NewDevelopment_def working_zap_def)
  then obtain st0 where
    st0: "start working_zap ''v1'' Map.empty (example_server None) [] = Inr st0"
    using start_not_nil by blast
  let ?a = "exec (example_server None) [RunMain, RunTask, RunMain] st0"
  let ?b = "exec (example_server None) finish st0"
  have ra: "start working_zap ''v1'' Map.empty (example_server None) [RunMain, RunTask, RunMain]
              = Inr ?a"
    using st0 by (rule start_run)
  have rb: "start working_zap ''v1'' Map.empty (example_server None) finish = Inr ?b"
    using st0 by (rule start_run)
  have a: "mpc ?a = M_Wait \<and> tpc ?a \<noteq> T_Finished"
    using start_initial [OF st0]
    by (simp add: advance_def step_def main_step_def task_step_def emit_def exit_status_def)
  have b: "exit_status ?b = Some 0"
    using start_finish(2) [OF st0] by (simp add: example_server_def code_of_def)
  then have c: "mpc ?b \<noteq> M_Go \<and> mpc ?b \<noteq> M_Wait"
    by (auto simp: exit_status_def)
  from a b c ra rb
    exit_only_after_task [OF ra, of 0] exit_only_after_task [OF rb, of 0]
  show ?thesis by simp
qed

text \<open>
  C10. A string variable that is set to the empty string resolves to the empty string and
  not to the default: \<open>HOST\<close> set to the empty string gives the empty host, not
  \<open>localhost\<close>.
\<close>

theorem getStringOrDefault_empty:
  "env name = Some '''' \<Longrightarrow> getStringOrDefault env name d = ''''"
  by (simp add: getStringOrDefault_def)

theorem getStringOrDefault_empty_witness:
  "[''HOST'' \<mapsto> ''''] ''HOST'' = Some ''''
   \<and> getStringOrDefault [''HOST'' \<mapsto> ''''] ''HOST'' ''localhost'' = ''''"
  using getStringOrDefault_empty [of "[''HOST'' \<mapsto> '''']" "''HOST''" "''localhost''"]
  by simp

end
